theory Spec2Isabelle
  imports Main "HOL-Library.Char_ord" "HOL-Library.List_Lexorder"
begin

section \<open>Python strings\<close>

text \<open>
  A Python \<open>str\<close> is modelled as a \<^typ>\<open>string\<close>; a \<^typ>\<open>char\<close> stands for a code point
  below 256. Lines are what \<open>for line in f\<close> yields: each keeps its terminating newline.
\<close>

definition startswith :: "string \<Rightarrow> string \<Rightarrow> bool" where
  \<comment> \<open>\<open>s.startswith(p)\<close>\<close>
  "startswith s p \<longleftrightarrow> take (length p) s = p"

fun contains :: "string \<Rightarrow> string \<Rightarrow> bool" where
  \<comment> \<open>\<open>sub in s\<close>\<close>
  "contains sub [] = (sub = [])"
| "contains sub (c # s) = (startswith (c # s) sub \<or> contains sub s)"

definition isspace :: "char \<Rightarrow> bool" where
  \<comment> \<open>\<open>str.isspace\<close>, and the class \<open>\s\<close> of \<open>re\<close>, on code points below 256\<close>
  "isspace c \<longleftrightarrow> c \<in> set [CHR 0x09, CHR 0x0A, CHR 0x0B, CHR 0x0C, CHR 0x0D,
     CHR 0x1C, CHR 0x1D, CHR 0x1E, CHR 0x1F, CHR 0x20, CHR 0x85, CHR 0xA0]"

definition strip :: "string \<Rightarrow> string" where
  \<comment> \<open>\<open>s.strip()\<close>\<close>
  "strip s = rev (dropWhile isspace (rev (dropWhile isspace s)))"

definition truthy :: "string option \<Rightarrow> bool" where
  \<comment> \<open>truth value of a variable holding \<open>None\<close> or a \<open>str\<close>\<close>
  "truthy v = (case v of None \<Rightarrow> False | Some s \<Rightarrow> s \<noteq> [])"

section \<open>Files and exceptions\<close>

text \<open>
  The exceptions that reading a text file or a gzip stream can raise, each with its message.
  \<open>IOError\<close> is an alias of \<open>OSError\<close>; \<open>gzip.BadGzipFile\<close> is a subclass of \<open>OSError\<close>;
  \<open>UnicodeDecodeError\<close> is a subclass of \<open>ValueError\<close>; \<open>EOFError\<close> (a truncated gzip
  stream) derives from \<open>Exception\<close> directly.
\<close>

datatype py_exc = OSError string | BadGzipFile string | UnicodeDecodeError string | EOFError string

fun str_exc :: "py_exc \<Rightarrow> string" where
  "str_exc (OSError m) = m"
| "str_exc (BadGzipFile m) = m"
| "str_exc (UnicodeDecodeError m) = m"
| "str_exc (EOFError m) = m"

fun isinstance_OSError :: "py_exc \<Rightarrow> bool" where
  "isinstance_OSError (OSError m) = True"
| "isinstance_OSError (BadGzipFile m) = True"
| "isinstance_OSError (UnicodeDecodeError m) = False"
| "isinstance_OSError (EOFError m) = False"

fun isinstance_BadGzipFile :: "py_exc \<Rightarrow> bool" where
  "isinstance_BadGzipFile (BadGzipFile m) = True"
| "isinstance_BadGzipFile e = False"

text \<open>
  An existing file, as the reader sees it: the lines the iteration yields and, when opening
  or reading fails, the exception raised after them.
\<close>

record source =
  lines :: "string list"
  failure :: "py_exc option"

text \<open>
  The file system of one run: the extended-states file and the status file (\<open>None\<close> when
  \<open>os.path.exists\<close> is false), and the paths \<open>glob.glob\<close> returns with their contents.
\<close>

record env =
  extended_states :: "source option"
  history_logs :: "(string \<times> source) list"
  status :: "source option"

section \<open>The extended-states reader\<close>

record es_vars =
  es_package_name :: "string option"
  es_auto_installed :: bool
  es_manual_packages :: "string set"

definition es_init :: es_vars where
  "es_init = \<lparr>es_package_name = None, es_auto_installed = False, es_manual_packages = {}\<rparr>"

definition es_line :: "string \<Rightarrow> es_vars \<Rightarrow> es_vars" where
  \<comment> \<open>the body of the loop over the lines\<close>
  "es_line line v =
     (if startswith line ''Package: '' then
        v\<lparr>es_package_name := Some (strip (drop 9 line)), es_auto_installed := False\<rparr>
      else if startswith line ''Auto-Installed: '' then
        v\<lparr>es_auto_installed := (strip (drop 16 line) = ''yes'')\<rparr>
      else if truthy (es_package_name v) \<and> \<not> es_auto_installed v then
        v\<lparr>es_manual_packages := insert (the (es_package_name v)) (es_manual_packages v)\<rparr>
      else v)"

definition get_manual_installed_packages_from_extended_states ::
  "source option \<Rightarrow> (py_exc + string set) \<times> string list" where
  \<comment> \<open>returns the set, or the exception that escapes, and the lines it printed\<close>
  "get_manual_installed_packages_from_extended_states f =
     (case f of
        None \<Rightarrow> (Inr {}, [])
      | Some src \<Rightarrow>
          (case failure src of
             None \<Rightarrow> (Inr (es_manual_packages (fold es_line (lines src) es_init)), [])
           | Some e \<Rightarrow>
               if isinstance_OSError e then
                 (Inr {}, [''Error reading /var/lib/dpkg/extended_states: '' @ str_exc e])
               else (Inl e, [])))"

section \<open>The history log scanner\<close>

definition endswith :: "string \<Rightarrow> string \<Rightarrow> bool" where
  \<comment> \<open>\<open>s.endswith(p)\<close>\<close>
  "endswith s p \<longleftrightarrow> length p \<le> length s \<and> drop (length s - length p) s = p"

definition name_char :: "char \<Rightarrow> bool" where
  \<comment> \<open>the class \<open>[a-z0-9._+-]\<close>\<close>
  "name_char c \<longleftrightarrow> c \<in> set ''abcdefghijklmnopqrstuvwxyz0123456789._+-''"

definition version_char :: "char \<Rightarrow> bool" where
  \<comment> \<open>the class \<open>[0-9.:~-]\<close>\<close>
  "version_char c \<longleftrightarrow> c \<in> set ''0123456789.:~-''"

text \<open>
  \<open>[a-z0-9._+-]+(?:=[0-9.:~-]+)?\<close> at the start of a string: the text matched, the name
  in it and the rest. Both repetitions are greedy; nothing that follows this fragment in
  either pattern can fail, so the longest runs are what the match keeps.
\<close>

definition match_entry :: "string \<Rightarrow> (string \<times> string \<times> string) option" where
  "match_entry s =
     (let name = takeWhile name_char s; r = dropWhile name_char s in
      if name = [] then None
      else (case r of
              [] \<Rightarrow> Some (name, name, r)
            | c # r' \<Rightarrow>
                if c = CHR ''='' \<and> takeWhile version_char r' \<noteq> [] then
                  Some (name @ c # takeWhile version_char r', name, dropWhile version_char r')
                else Some (name, name, r)))"

text \<open>
  The repeated group \<open>(,\s*[a-z0-9._+-]+(?:=[0-9.:~-]+)?)*\<close>: the text it matches at the
  start of a string. No character is both in \<open>\s\<close> and in the name class, so giving back
  white space never makes an iteration succeed.
\<close>

function match_more :: "string \<Rightarrow> string" where
  "match_more s =
     (case s of
        [] \<Rightarrow> []
      | c # r \<Rightarrow>
          if c = CHR '','' then
            (case match_entry (dropWhile isspace r) of
               None \<Rightarrow> []
             | Some (m, n, rest) \<Rightarrow> c # takeWhile isspace r @ m @ match_more rest)
          else [])"
  by pat_completeness auto
termination
proof (relation "measure length")
  show "wf (measure length)" by simp
next
  fix s :: string and c r x2 m y n rest
  assume s: "s = c # r" and "c = CHR '',''"
    and a: "match_entry (dropWhile isspace r) = Some x2"
    and x: "(m, y) = x2" and y: "(n, rest) = y"
  define t where "t = dropWhile isspace r"
  have ne: "takeWhile name_char t \<noteq> []"
    using a unfolding t_def match_entry_def Let_def by (simp split: if_splits)
  have "length (takeWhile name_char t) + length (dropWhile name_char t) = length t"
    by (metis length_append takeWhile_dropWhile_id)
  moreover have "0 < length (takeWhile name_char t)" using ne by simp
  ultimately have l1: "length (dropWhile name_char t) < length t" by linarith
  have "rest = dropWhile name_char t \<or>
        (\<exists>c r'. dropWhile name_char t = c # r' \<and> rest = dropWhile version_char r')"
    using a x[symmetric] y[symmetric] unfolding t_def match_entry_def Let_def
    by (simp split: if_splits list.splits)
  then have "length rest \<le> length (dropWhile name_char t)"
  proof
    assume "rest = dropWhile name_char t" then show ?thesis by simp
  next
    assume "\<exists>c r'. dropWhile name_char t = c # r' \<and> rest = dropWhile version_char r'"
    then obtain c' r' where e: "dropWhile name_char t = c' # r'" and r: "rest = dropWhile version_char r'"
      by blast
    have "length rest \<le> length r'" unfolding r by (rule length_dropWhile_le)
    then show ?thesis using e by simp
  qed
  moreover have "length t \<le> length r" unfolding t_def by (rule length_dropWhile_le)
  ultimately show "(rest, s) \<in> measure length" using l1 s by simp
qed

declare match_more.simps [simp del]

definition install_pattern_match :: "string \<Rightarrow> string option" where
  \<comment> \<open>\<open>install_pattern\<close> matched at the start of a string: the group \<open>packages\<close>\<close>
  "install_pattern_match s =
     (if startswith s ''install'' then
        (let r = drop 7 s in
         if takeWhile isspace r = [] then None
         else (case match_entry (dropWhile isspace r) of
                 None \<Rightarrow> None
               | Some (m, n, rest) \<Rightarrow> Some (m @ match_more rest)))
      else None)"

fun install_pattern_search :: "string \<Rightarrow> string option" where
  \<comment> \<open>\<open>install_pattern.search(line)\<close>: the leftmost match\<close>
  "install_pattern_search [] = install_pattern_match []"
| "install_pattern_search (c # s) =
     (case install_pattern_match (c # s) of
        Some g \<Rightarrow> Some g
      | None \<Rightarrow> install_pattern_search s)"

definition package_name_pattern_match :: "string \<Rightarrow> string option" where
  \<comment> \<open>\<open>package_name_pattern.match(package_entry)\<close>: group 1 of the match\<close>
  "package_name_pattern_match package_entry =
     (case match_entry package_entry of None \<Rightarrow> None | Some (m, n, rest) \<Rightarrow> Some n)"

fun split_comma_space :: "string \<Rightarrow> string list" where
  \<comment> \<open>\<open>s.split(", ")\<close>\<close>
  "split_comma_space [] = [[]]"
| "split_comma_space [c] = [[c]]"
| "split_comma_space (c # d # s) =
     (if c = CHR '','' \<and> d = CHR '' '' then [] # split_comma_space s
      else (case split_comma_space (d # s) of
              [] \<Rightarrow> [[c]]
            | t # ts \<Rightarrow> (c # t) # ts))"

definition log_entry :: "string \<Rightarrow> string set \<Rightarrow> string set" where
  \<comment> \<open>the body of the loop over \<open>package_list\<close>\<close>
  "log_entry package_entry manual_packages =
     (case package_name_pattern_match package_entry of
        None \<Rightarrow> manual_packages
      | Some g \<Rightarrow> if g \<noteq> ''.'' then insert g manual_packages else manual_packages)"

definition log_line :: "string \<Rightarrow> string set \<Rightarrow> string set" where
  \<comment> \<open>the body of the loop over the lines; the same in both branches\<close>
  "log_line line manual_packages =
     (if contains '' install '' line then
        (case install_pattern_search line of
           None \<Rightarrow> manual_packages
         | Some packages_str \<Rightarrow> fold log_entry (split_comma_space packages_str) manual_packages)
      else manual_packages)"

fun log_files :: "(string \<times> source) list \<Rightarrow> string set \<Rightarrow> py_exc + string set" where
  \<comment> \<open>the loop over \<open>log_files\<close>; a caught exception leaves what the file added so far\<close>
  "log_files [] manual_packages = Inr manual_packages"
| "log_files ((log_file, src) # fs) manual_packages =
     (let added = fold log_line (lines src) manual_packages in
      if endswith log_file ''.gz'' then
        (case failure src of
           None \<Rightarrow> log_files fs added
         | Some e \<Rightarrow>
             if isinstance_OSError e \<or> isinstance_BadGzipFile e then log_files fs added
             else Inl e)
      else
        (case failure src of
           None \<Rightarrow> log_files fs added
         | Some e \<Rightarrow> if isinstance_OSError e then log_files fs added else Inl e))"

definition get_manual_installed_packages_from_logs ::
  "(string \<times> source) list \<Rightarrow> (py_exc + string set) \<times> string list" where
  "get_manual_installed_packages_from_logs fs = (log_files fs {}, [])"

section \<open>The status reader\<close>

record st_vars =
  st_package_name :: "string option"
  st_auto_packages :: "string set"

definition st_init :: st_vars where
  "st_init = \<lparr>st_package_name = None, st_auto_packages = {}\<rparr>"

definition st_line :: "string \<Rightarrow> st_vars \<Rightarrow> st_vars" where
  \<comment> \<open>the body of the loop over the lines\<close>
  "st_line line v =
     (if startswith line ''Package: '' then
        v\<lparr>st_package_name := Some (strip (drop 9 line))\<rparr>
      else if startswith line ''Status: '' \<and> contains ''auto'' line then
        (if truthy (st_package_name v) then
           v\<lparr>st_auto_packages := insert (the (st_package_name v)) (st_auto_packages v)\<rparr>
         else v)
      else v)"

definition get_auto_installed_packages ::
  "source option \<Rightarrow> (py_exc + string set) \<times> string list" where
  "get_auto_installed_packages f =
     (case f of
        None \<Rightarrow> (Inr {}, [])
      | Some src \<Rightarrow>
          (case failure src of
             None \<Rightarrow> (Inr (st_auto_packages (fold st_line (lines src) st_init)), [])
           | Some e \<Rightarrow>
               if isinstance_OSError e then
                 (Inr {}, [''Error reading /var/lib/dpkg/status: '' @ str_exc e])
               else (Inl e, [])))"

section \<open>The process: set objects and output streams\<close>

text \<open>
  Python sets are mutable objects, and \<open>update\<close> and \<open>difference_update\<close> change their
  receiver in place. The sets that cross a function boundary live in a store, addressed by
  position; \<open>print\<close> writes a line to standard output.
\<close>

type_synonym ref = nat

record world =
  heap :: "string set list"
  stdout :: "string list"
  stderr :: "string list"

definition print :: "string \<Rightarrow> world \<Rightarrow> world" where
  "print s w = w\<lparr>stdout := stdout w @ [s]\<rparr>"

definition new_set :: "string set \<Rightarrow> world \<Rightarrow> ref \<times> world" where
  \<comment> \<open>a fresh set object with the given elements\<close>
  "new_set S w = (length (heap w), w\<lparr>heap := heap w @ [S]\<rparr>)"

definition set_update :: "ref \<Rightarrow> ref \<Rightarrow> world \<Rightarrow> world" where
  \<comment> \<open>\<open>a.update(b)\<close>\<close>
  "set_update a b w = w\<lparr>heap := (heap w)[a := heap w ! a \<union> heap w ! b]\<rparr>"

definition set_difference_update :: "ref \<Rightarrow> ref \<Rightarrow> world \<Rightarrow> world" where
  \<comment> \<open>\<open>a.difference_update(b)\<close>\<close>
  "set_difference_update a b w = w\<lparr>heap := (heap w)[a := heap w ! a - heap w ! b]\<rparr>"

definition call :: "(py_exc + string set) \<times> string list \<Rightarrow> world \<Rightarrow> (py_exc + ref) \<times> world" where
  \<comment> \<open>a call of a reader: its lines go to standard output, the set it returns is a new object\<close>
  "call r w =
     (case r of
        (Inl e, out) \<Rightarrow> (Inl e, w\<lparr>stdout := stdout w @ out\<rparr>)
      | (Inr S, out) \<Rightarrow> apfst Inr (new_set S (w\<lparr>stdout := stdout w @ out\<rparr>)))"

section \<open>The pipeline\<close>

definition get_manual_installed_packages :: "env \<Rightarrow> world \<Rightarrow> (py_exc + ref) \<times> world" where
  "get_manual_installed_packages e w0 =
     (case new_set {} w0 of (manual_packages, w1) \<Rightarrow>
      (case call (get_manual_installed_packages_from_extended_states (extended_states e)) w1 of
         (Inl x, w2) \<Rightarrow> (Inl x, w2)
       | (Inr manual_packages_extended_states, w2) \<Rightarrow>
      (case call (get_manual_installed_packages_from_logs (history_logs e))
              (set_update manual_packages manual_packages_extended_states w2) of
         (Inl x, w3) \<Rightarrow> (Inl x, w3)
       | (Inr manual_packages_logs, w3) \<Rightarrow>
      (case call (get_auto_installed_packages (status e))
              (set_update manual_packages manual_packages_logs w3) of
         (Inl x, w4) \<Rightarrow> (Inl x, w4)
       | (Inr auto_installed_packages, w4) \<Rightarrow>
           (Inr manual_packages,
            set_difference_update manual_packages auto_installed_packages w4)))))"

definition main :: "env \<Rightarrow> world \<Rightarrow> (py_exc + unit) \<times> world" where
  "main e w =
     (case get_manual_installed_packages e w of
        (Inl x, w') \<Rightarrow> (Inl x, w')
      | (Inr manual_packages, w') \<Rightarrow>
          if heap w' ! manual_packages \<noteq> {} then
            (Inr (), fold print (sorted_list_of_set (heap w' ! manual_packages)) w')
          else (Inr (), print ''No manually installed packages found.'' w'))"

definition exit_status :: "py_exc + unit \<Rightarrow> nat" where
  \<comment> \<open>the interpreter exits with 0 when \<open>main\<close> returns and with 1 on an uncaught exception\<close>
  "exit_status r = (case r of Inl x \<Rightarrow> 1 | Inr u \<Rightarrow> 0)"

section \<open>Notions used to state the properties\<close>

text \<open>
  The records of a status file: every \<open>Package: \<close> line starts one, named by the rest
  of the line, and the lines after it up to the next \<open>Package: \<close> line are its body.
\<close>

fun status_records :: "string list \<Rightarrow> (string \<times> string list) list" where
  "status_records [] = []"
| "status_records (l # ls) =
     (if startswith l ''Package: '' then
        (strip (drop 9 l), takeWhile (\<lambda>x. \<not> startswith x ''Package: '') ls) # status_records ls
      else status_records ls)"

text \<open>A body has a \<open>Status: \<close> line that contains the marker \<open>auto\<close>.\<close>

definition auto_marked :: "string list \<Rightarrow> bool" where
  "auto_marked body \<longleftrightarrow> list_ex (\<lambda>l. startswith l ''Status: '' \<and> contains ''auto'' l) body"

text \<open>What a call returns: the exception, or the elements of the set object.\<close>

definition result_of :: "(py_exc + ref) \<times> world \<Rightarrow> py_exc + string set" where
  "result_of r = (case r of (Inl x, w) \<Rightarrow> Inl x | (Inr m, w) \<Rightarrow> Inr (heap w ! m))"

text \<open>The line a reader prints when reading its file fails.\<close>

definition diagnostic :: "string \<Rightarrow> source option \<Rightarrow> string list" where
  "diagnostic path f =
     (case f of
        None \<Rightarrow> []
      | Some src \<Rightarrow>
          (case failure src of
             None \<Rightarrow> []
           | Some x \<Rightarrow> [''Error reading '' @ path @ '': '' @ str_exc x]))"

text \<open>Reading fails, if at all, with an \<open>OSError\<close> (or a subclass of it).\<close>

definition os_errors_only :: "source \<Rightarrow> bool" where
  "os_errors_only src = (case failure src of None \<Rightarrow> True | Some x \<Rightarrow> isinstance_OSError x)"

definition env_os_errors_only :: "env \<Rightarrow> bool" where
  "env_os_errors_only e \<longleftrightarrow>
     (case extended_states e of None \<Rightarrow> True | Some src \<Rightarrow> os_errors_only src) \<and>
     list_all (\<lambda>f. os_errors_only (snd f)) (history_logs e) \<and>
     (case status e of None \<Rightarrow> True | Some src \<Rightarrow> os_errors_only src)"

text \<open>The handler around the reading of a log file catches what the file raises, if anything.\<close>

definition caught :: "string \<times> source \<Rightarrow> bool" where
  "caught f =
     (case failure (snd f) of
        None \<Rightarrow> True
      | Some x \<Rightarrow>
          if endswith (fst f) ''.gz'' then isinstance_OSError x \<or> isinstance_BadGzipFile x
          else isinstance_OSError x)"

section \<open>Example runs\<close>

definition initial_world :: world where
  "initial_world = \<lparr>heap = [], stdout = [], stderr = []\<rparr>"

definition env_mixed :: env where
  "env_mixed =
     \<lparr>extended_states = Some \<lparr>lines = [''Package: curl\<newline>'', ''\<newline>''], failure = None\<rparr>,
      history_logs = [(''/var/log/apt/history.log'',
          \<lparr>lines = [''Commandline: apt install libssl1.1, vim\<newline>''], failure = None\<rparr>)],
      status = Some \<lparr>lines = [''Package: libssl1.1\<newline>'',
          ''Status: install ok auto\<newline>'', ''\<newline>''], failure = None\<rparr>\<rparr>"

definition env_unreadable :: env where
  "env_unreadable =
     \<lparr>extended_states = Some \<lparr>lines = [], failure = Some (OSError ''[Errno 5] Input/output error'')\<rparr>,
      history_logs = [(''/var/log/apt/history.log.1.gz'',
          \<lparr>lines = [''Commandline: apt install vim\<newline>''],
           failure = Some (BadGzipFile ''Not a gzipped file'')\<rparr>)],
      status = None\<rparr>"

definition env_undecodable :: env where
  "env_undecodable =
     \<lparr>extended_states = Some \<lparr>lines = [''Package: curl\<newline>''],
          failure = Some (UnicodeDecodeError ''invalid start byte'')\<rparr>,
      history_logs = [(''/var/log/apt/history.log'',
          \<lparr>lines = [''Commandline: apt install vim\<newline>''],
           failure = Some (OSError ''[Errno 5] Input/output error'')\<rparr>)],
      status = None\<rparr>"

definition env_history :: env where
  "env_history =
     \<lparr>extended_states = None,
      history_logs = [(''/var/log/apt/history.log'',
          \<lparr>lines = [''Commandline: apt install vim-common=2:8.2, vim\<newline>''],
           failure = None\<rparr>)],
      status = None\<rparr>"

section \<open>Output, finiteness and the shape of a run\<close>

lemma fold_print: "fold print xs w = w\<lparr>stdout := stdout w @ xs\<rparr>"
  by (induction xs arbitrary: w) (simp_all add: print_def)

lemma finite_es_line: "finite (es_manual_packages v) \<Longrightarrow> finite (es_manual_packages (es_line l v))"
  by (simp add: es_line_def)

lemma finite_es_fold: "finite (es_manual_packages v) \<Longrightarrow> finite (es_manual_packages (fold es_line ls v))"
  by (induction ls arbitrary: v) (simp_all add: finite_es_line)

lemma finite_st_line: "finite (st_auto_packages v) \<Longrightarrow> finite (st_auto_packages (st_line l v))"
  by (simp add: st_line_def)

lemma finite_st_fold: "finite (st_auto_packages v) \<Longrightarrow> finite (st_auto_packages (fold st_line ls v))"
  by (induction ls arbitrary: v) (simp_all add: finite_st_line)

lemma finite_log_entry: "finite S \<Longrightarrow> finite (log_entry t S)"
  by (simp add: log_entry_def split: option.splits)

lemma finite_log_entries: "finite S \<Longrightarrow> finite (fold log_entry ts S)"
  by (induction ts arbitrary: S) (simp_all add: finite_log_entry)

lemma finite_log_line: "finite S \<Longrightarrow> finite (log_line l S)"
  by (simp add: log_line_def finite_log_entries split: option.splits)

lemma finite_log_lines: "finite S \<Longrightarrow> finite (fold log_line ls S)"
  by (induction ls arbitrary: S) (simp_all add: finite_log_line)

lemma finite_log_files: "finite S \<Longrightarrow> log_files fs S = Inr B \<Longrightarrow> finite B"
proof (induction fs arbitrary: S)
  case Nil
  then show ?case by simp
next
  case (Cons f fs)
  obtain n src where f: "f = (n, src)" by (cases f)
  have fin: "finite (fold log_line (lines src) S)" using Cons.prems(1) by (rule finite_log_lines)
  have "log_files fs (fold log_line (lines src) S) = Inr B"
    using Cons.prems(2) unfolding f by (simp add: Let_def split: if_splits option.splits)
  then show ?case using Cons.IH fin by blast
qed

lemma finite_extended_states:
  "fst (get_manual_installed_packages_from_extended_states f) = Inr A \<Longrightarrow> finite A"
  by (auto simp: get_manual_installed_packages_from_extended_states_def es_init_def
      finite_es_fold split: option.splits if_splits)

lemma finite_logs:
  "fst (get_manual_installed_packages_from_logs fs) = Inr B \<Longrightarrow> finite B"
  using finite_log_files [of "{}" fs B]
  by (simp add: get_manual_installed_packages_from_logs_def)

lemma finite_auto:
  "fst (get_auto_installed_packages f) = Inr C \<Longrightarrow> finite C"
  by (auto simp: get_auto_installed_packages_def st_init_def
      finite_st_fold split: option.splits if_splits)

lemma call_Inr:
  "fst r = Inr S \<Longrightarrow>
   call r w = (Inr (length (heap w)), w\<lparr>heap := heap w @ [S], stdout := stdout w @ snd r\<rparr>)"
  by (cases r) (simp add: call_def new_set_def)

lemma call_Inl:
  "fst r = Inl x \<Longrightarrow> call r w = (Inl x, w\<lparr>stdout := stdout w @ snd r\<rparr>)"
  by (cases r) (simp add: call_def)

lemma pipeline_returns:
  assumes A: "fst (get_manual_installed_packages_from_extended_states (extended_states e)) = Inr A"
    and B: "fst (get_manual_installed_packages_from_logs (history_logs e)) = Inr B"
    and C: "fst (get_auto_installed_packages (status e)) = Inr C"
  shows "get_manual_installed_packages e w =
     (Inr (length (heap w)),
      w\<lparr>heap := heap w @ [(A \<union> B) - C, A, B, C],
        stdout := stdout w
          @ snd (get_manual_installed_packages_from_extended_states (extended_states e))
          @ snd (get_manual_installed_packages_from_logs (history_logs e))
          @ snd (get_auto_installed_packages (status e))\<rparr>)"
  unfolding get_manual_installed_packages_def
  by (simp add: new_set_def call_Inr [OF A] call_Inr [OF B] call_Inr [OF C]
      set_update_def set_difference_update_def nth_append list_update_append)

lemma pipeline_Inr_readers:
  assumes "get_manual_installed_packages e w = (Inr m, w')"
  shows "\<exists>A B C.
     fst (get_manual_installed_packages_from_extended_states (extended_states e)) = Inr A \<and>
     fst (get_manual_installed_packages_from_logs (history_logs e)) = Inr B \<and>
     fst (get_auto_installed_packages (status e)) = Inr C"
proof -
  obtain a where a: "fst (get_manual_installed_packages_from_extended_states (extended_states e)) = a" by simp
  obtain b where b: "fst (get_manual_installed_packages_from_logs (history_logs e)) = b" by simp
  obtain c where c: "fst (get_auto_installed_packages (status e)) = c" by simp
  show ?thesis
  proof (cases a)
    case (Inl x)
    then show ?thesis using assms a
      by (simp add: get_manual_installed_packages_def new_set_def call_Inl)
  next
    case A: (Inr A)
    show ?thesis
    proof (cases b)
      case (Inl x)
      then show ?thesis using assms a b A
        by (simp add: get_manual_installed_packages_def new_set_def call_Inl call_Inr)
    next
      case B: (Inr B)
      show ?thesis
      proof (cases c)
        case (Inl x)
        then show ?thesis using assms a b c A B
          by (simp add: get_manual_installed_packages_def new_set_def call_Inl call_Inr)
      next
        case (Inr C)
        then show ?thesis using a b c A B by simp
      qed
    qed
  qed
qed

lemma main_returns:
  assumes "get_manual_installed_packages e w = (Inr m, w1)"
  shows "main e w = (Inr (), w1\<lparr>stdout := stdout w1 @
     (if heap w1 ! m = {} then [''No manually installed packages found.'']
      else sorted_list_of_set (heap w1 ! m))\<rparr>)"
  using assms by (simp add: main_def fold_print print_def)

lemma main_raises:
  assumes "get_manual_installed_packages e w = (Inl x, w1)"
  shows "main e w = (Inl x, w1)"
  using assms by (simp add: main_def)

lemma result_finite:
  assumes "get_manual_installed_packages e w = (Inr m, w1)"
  shows "finite (heap w1 ! m)"
proof -
  obtain A B C where
    A: "fst (get_manual_installed_packages_from_extended_states (extended_states e)) = Inr A"
    and B: "fst (get_manual_installed_packages_from_logs (history_logs e)) = Inr B"
    and C: "fst (get_auto_installed_packages (status e)) = Inr C"
    using pipeline_Inr_readers [OF assms] by blast
  have "heap w1 ! m = (A \<union> B) - C"
    using assms pipeline_returns [OF A B C, of w] by (auto simp: nth_append)
  then show ?thesis using finite_extended_states [OF A] finite_logs [OF B] by simp
qed

lemma result_of_pipeline:
  "result_of (get_manual_installed_packages e w) =
     (case fst (get_manual_installed_packages_from_extended_states (extended_states e)) of
        Inl x \<Rightarrow> Inl x
      | Inr A \<Rightarrow>
     (case fst (get_manual_installed_packages_from_logs (history_logs e)) of
        Inl x \<Rightarrow> Inl x
      | Inr B \<Rightarrow>
     (case fst (get_auto_installed_packages (status e)) of
        Inl x \<Rightarrow> Inl x
      | Inr C \<Rightarrow> Inr ((A \<union> B) - C))))"
proof (cases "fst (get_manual_installed_packages_from_extended_states (extended_states e))")
  case (Inl x)
  then show ?thesis
    by (simp add: get_manual_installed_packages_def new_set_def call_Inl result_of_def)
next
  case A: (Inr A)
  show ?thesis
  proof (cases "fst (get_manual_installed_packages_from_logs (history_logs e))")
    case (Inl x)
    then show ?thesis using A
      by (simp add: get_manual_installed_packages_def new_set_def call_Inl call_Inr result_of_def)
  next
    case B: (Inr B)
    show ?thesis
    proof (cases "fst (get_auto_installed_packages (status e))")
      case (Inl x)
      then show ?thesis using A B
        by (simp add: get_manual_installed_packages_def new_set_def call_Inl call_Inr result_of_def)
    next
      case C: (Inr C)
      show ?thesis
        by (simp add: pipeline_returns [OF A B C] A B C result_of_def nth_append)
    qed
  qed
qed

lemma extended_states_diag:
  assumes "fst (get_manual_installed_packages_from_extended_states f) = Inr A"
  shows "snd (get_manual_installed_packages_from_extended_states f)
       = diagnostic ''/var/lib/dpkg/extended_states'' f"
  using assms
  by (auto simp: get_manual_installed_packages_from_extended_states_def
      diagnostic_def split: option.splits if_splits)

lemma status_diag:
  assumes "fst (get_auto_installed_packages f) = Inr C"
  shows "snd (get_auto_installed_packages f) = diagnostic ''/var/lib/dpkg/status'' f"
  using assms
  by (auto simp: get_auto_installed_packages_def diagnostic_def split: option.splits if_splits)

lemma main_Inr_pipeline:
  assumes "fst (main e w) = Inr ()"
  shows "\<exists>m w1. get_manual_installed_packages e w = (Inr m, w1)"
proof (cases "get_manual_installed_packages e w")
  case (Pair r w1)
  then show ?thesis using assms by (cases r) (simp_all add: main_def)
qed

lemma main_unreadable:
  "main env_unreadable initial_world =
     (Inr (), \<lparr>heap = [{''vim''}, {}, {''vim''}, {}],
        stdout = [''Error reading /var/lib/dpkg/extended_states: [Errno 5] Input/output error'',
                  ''vim''],
        stderr = []\<rparr>)"
  by code_simp

section \<open>Properties of the reconciliation\<close>

text \<open>
  C1. Whenever the three readers return sets \<open>A\<close>, \<open>B\<close> and \<open>C\<close>, the pipeline returns
  (it raises nothing) a set object that is new and holds \<open>(A \<union> B) - C\<close>. The store it
  leaves is the store it found, followed by that object and by the three objects the
  readers returned, which still hold \<open>A\<close>, \<open>B\<close> and \<open>C\<close>: none of them was changed.
\<close>

theorem pipeline_is_union_minus_auto:
  assumes "fst (get_manual_installed_packages_from_extended_states (extended_states e)) = Inr A"
    and "fst (get_manual_installed_packages_from_logs (history_logs e)) = Inr B"
    and "fst (get_auto_installed_packages (status e)) = Inr C"
  shows "\<exists>w'. get_manual_installed_packages e w = (Inr (length (heap w)), w') \<and>
     heap w' = heap w @ [(A \<union> B) - C, A, B, C]"
  using pipeline_returns [OF assms, of w] by simp

theorem pipeline_is_union_minus_auto_witness:
  "fst (get_manual_installed_packages_from_extended_states (extended_states env_mixed))
     = Inr {''curl''} \<and>
   fst (get_manual_installed_packages_from_logs (history_logs env_mixed))
     = Inr {''libssl1.1'', ''vim''} \<and>
   fst (get_auto_installed_packages (status env_mixed)) = Inr {''libssl1.1''} \<and>
   (\<exists>w'. get_manual_installed_packages env_mixed initial_world
        = (Inr (length (heap initial_world)), w') \<and>
      heap w' = heap initial_world
        @ [({''curl''} \<union> {''libssl1.1'', ''vim''}) - {''libssl1.1''},
           {''curl''}, {''libssl1.1'', ''vim''}, {''libssl1.1''}])"
proof -
  have a: "fst (get_manual_installed_packages_from_extended_states (extended_states env_mixed))
      = Inr {''curl''}"
    by code_simp
  have b: "fst (get_manual_installed_packages_from_logs (history_logs env_mixed))
      = Inr {''libssl1.1'', ''vim''}"
    by code_simp
  have c: "fst (get_auto_installed_packages (status env_mixed)) = Inr {''libssl1.1''}"
    by code_simp
  from pipeline_is_union_minus_auto [OF a b c, of initial_world] a b c
  show ?thesis by blast
qed

text \<open>
  C4. When the pipeline returns, the status reader has returned a set \<open>C\<close>, and the set
  the pipeline returns has no element in common with \<open>C\<close>.
\<close>

theorem result_disjoint_from_auto:
  assumes "get_manual_installed_packages e w = (Inr m, w')"
  shows "\<exists>C. fst (get_auto_installed_packages (status e)) = Inr C \<and> heap w' ! m \<inter> C = {}"
proof -
  obtain A B C where
    A: "fst (get_manual_installed_packages_from_extended_states (extended_states e)) = Inr A"
    and B: "fst (get_manual_installed_packages_from_logs (history_logs e)) = Inr B"
    and C: "fst (get_auto_installed_packages (status e)) = Inr C"
    using pipeline_Inr_readers [OF assms] by blast
  have "heap w' ! m = (A \<union> B) - C"
    using assms pipeline_returns [OF A B C, of w] by (auto simp: nth_append)
  then show ?thesis using C by blast
qed

theorem result_disjoint_from_auto_witness:
  "get_manual_installed_packages env_mixed initial_world
     = (Inr 0, \<lparr>heap = [{''curl'', ''vim''}, {''curl''}, {''libssl1.1'', ''vim''}, {''libssl1.1''}],
          stdout = [], stderr = []\<rparr>) \<and>
   (\<exists>C. fst (get_auto_installed_packages (status env_mixed)) = Inr C \<and>
      heap \<lparr>heap = [{''curl'', ''vim''}, {''curl''}, {''libssl1.1'', ''vim''}, {''libssl1.1''}],
          stdout = [], stderr = []\<rparr> ! 0 \<inter> C = {})"
proof -
  have h: "get_manual_installed_packages env_mixed initial_world
     = (Inr 0, \<lparr>heap = [{''curl'', ''vim''}, {''curl''}, {''libssl1.1'', ''vim''}, {''libssl1.1''}],
          stdout = [], stderr = []\<rparr>)"
    by code_simp
  show ?thesis by (rule conjI [OF h result_disjoint_from_auto [OF h]])
qed

text \<open>
  C9. What a run of the pipeline returns, the exception that escapes or the elements of
  the result set, is a function of the file contents alone: two runs on the same files
  return the same, whatever state each starts in.
\<close>

theorem pipeline_deterministic:
  "result_of (get_manual_installed_packages e w1) = result_of (get_manual_installed_packages e w2)"
  by (simp add: result_of_pipeline)

text \<open>
  The order in which \<open>glob.glob\<close> lists the log files does not matter either: the scanner
  adds to a set, so when it returns for one order it returns the same set for any other.
\<close>

lemma log_entry_union: "log_entry t S = S \<union> log_entry t {}"
  by (auto simp: log_entry_def split: option.splits)

lemma log_entries_union: "fold log_entry ts S = S \<union> fold log_entry ts {}"
proof (induction ts arbitrary: S)
  case Nil
  then show ?case by simp
next
  case (Cons t ts)
  have "fold log_entry (t # ts) S = log_entry t S \<union> fold log_entry ts {}"
    using Cons.IH [of "log_entry t S"] by simp
  also have "\<dots> = S \<union> (log_entry t {} \<union> fold log_entry ts {})"
    using log_entry_union [of t S] by blast
  also have "log_entry t {} \<union> fold log_entry ts {} = fold log_entry (t # ts) {}"
    using Cons.IH [of "log_entry t {}"] by simp
  finally show ?case .
qed

lemma log_line_union: "log_line l S = S \<union> log_line l {}"
  using log_entries_union [of _ S]
  by (auto simp: log_line_def split: option.splits)

lemma log_lines_union: "fold log_line ls S = S \<union> fold log_line ls {}"
proof (induction ls arbitrary: S)
  case Nil
  then show ?case by simp
next
  case (Cons l ls)
  have "fold log_line (l # ls) S = log_line l S \<union> fold log_line ls {}"
    using Cons.IH [of "log_line l S"] by simp
  also have "\<dots> = S \<union> (log_line l {} \<union> fold log_line ls {})"
    using log_line_union [of l S] by blast
  also have "log_line l {} \<union> fold log_line ls {} = fold log_line (l # ls) {}"
    using Cons.IH [of "log_line l {}"] by simp
  finally show ?case .
qed

lemma log_files_char:
  "log_files fs S =
     (case find (\<lambda>f. \<not> caught f) fs of
        Some f \<Rightarrow> Inl (the (failure (snd f)))
      | None \<Rightarrow> Inr (S \<union> (\<Union>f\<in>set fs. fold log_line (lines (snd f)) {})))"
proof (induction fs arbitrary: S)
  case Nil
  then show ?case by simp
next
  case (Cons f fs)
  obtain n src where f: "f = (n, src)" by (cases f)
  have u: "fold log_line (lines src) S = S \<union> fold log_line (lines src) {}"
    by (rule log_lines_union)
  show ?case
  proof (cases "caught f")
    case True
    then have "log_files (f # fs) S = log_files fs (fold log_line (lines src) S)"
      unfolding f by (auto simp: caught_def Let_def split: option.splits if_splits)
    then show ?thesis using True Cons.IH [of "fold log_line (lines src) S"] u
      by (auto simp: f split: option.splits)
  next
    case False
    then have "log_files (f # fs) S = Inl (the (failure src))"
      unfolding f by (auto simp: caught_def Let_def split: option.splits if_splits)
    then show ?thesis using False by (simp add: f)
  qed
qed

lemma log_files_order_irrelevant:
  assumes "set fs = set fs'" and "log_files fs S = Inr B"
  shows "log_files fs' S = Inr B"
proof -
  have n: "find (\<lambda>f. \<not> caught f) fs = None"
    using assms(2) unfolding log_files_char by (simp split: option.splits)
  then have "find (\<lambda>f. \<not> caught f) fs' = None"
    using assms(1) by (simp add: find_None_iff)
  then show ?thesis using assms n unfolding log_files_char by simp
qed

lemma pipeline_glob_order_irrelevant:
  assumes "set (history_logs e') = set (history_logs e)"
    and "extended_states e' = extended_states e" and "status e' = status e"
    and "result_of (get_manual_installed_packages e w) = Inr S"
  shows "result_of (get_manual_installed_packages e' w') = Inr S"
proof -
  obtain A where A: "fst (get_manual_installed_packages_from_extended_states (extended_states e)) = Inr A"
    using assms(4) unfolding result_of_pipeline by (auto split: sum.splits)
  obtain B where B: "fst (get_manual_installed_packages_from_logs (history_logs e)) = Inr B"
    using assms(4) unfolding result_of_pipeline by (auto split: sum.splits)
  have B': "fst (get_manual_installed_packages_from_logs (history_logs e')) = Inr B"
    using B log_files_order_irrelevant [OF assms(1) [symmetric], of "{}" B]
    by (simp add: get_manual_installed_packages_from_logs_def)
  show ?thesis
    using assms(2,3,4) A B B' unfolding result_of_pipeline by simp
qed

section \<open>Properties of the extended-states reader\<close>

text \<open>
  C2. The file below has one record, with an \<open>Architecture\<close> line between its
  \<open>Package\<close> line and its \<open>Auto-Installed: yes\<close> line. The reader adds the package when
  it reads the \<open>Architecture\<close> line, before it has seen the flag, and returns it.
\<close>

theorem auto_installed_yes_is_included:
  "get_manual_installed_packages_from_extended_states
     (Some \<lparr>lines = [''Package: libssl1.1\<newline>'', ''Architecture: amd64\<newline>'',
        ''Auto-Installed: yes\<newline>'', ''\<newline>''], failure = None\<rparr>)
     = (Inr {''libssl1.1''}, [])"
  by code_simp

text \<open>
  A record at the end of the file with no line after its \<open>Auto-Installed: no\<close> line is
  not returned: a package is added only when a later line of its record is read.
\<close>

lemma unterminated_record_is_dropped:
  "get_manual_installed_packages_from_extended_states
     (Some \<lparr>lines = [''Package: curl\<newline>'', ''Auto-Installed: no\<newline>''], failure = None\<rparr>)
     = (Inr {}, [])"
  by code_simp

lemma es_line_package:
  "startswith l ''Package: '' \<Longrightarrow> es_manual_packages (es_line l v) = es_manual_packages v"
  by (simp add: es_line_def)

text \<open>
  C10. A \<open>Package: \<close> line at the end of the file adds nothing: the reader returns what
  it returns for the file without that line. So the package of that line is in the output
  only if an earlier record of the same name put it there.
\<close>

theorem final_package_line_adds_nothing:
  assumes "startswith l ''Package: ''"
  shows "get_manual_installed_packages_from_extended_states (Some (src\<lparr>lines := lines src @ [l]\<rparr>))
     = get_manual_installed_packages_from_extended_states (Some src)"
  using assms
  by (simp add: get_manual_installed_packages_from_extended_states_def es_line_package
      split: option.splits)

theorem final_package_line_witness:
  "startswith ''Package: curl\<newline>'' ''Package: '' \<and>
   get_manual_installed_packages_from_extended_states
     (Some (\<lparr>lines = [''Package: vim\<newline>'', ''\<newline>''], failure = None\<rparr>
        \<lparr>lines := lines \<lparr>lines = [''Package: vim\<newline>'', ''\<newline>''], failure = None\<rparr>
           @ [''Package: curl\<newline>'']\<rparr>))
     = get_manual_installed_packages_from_extended_states
         (Some \<lparr>lines = [''Package: vim\<newline>'', ''\<newline>''], failure = None\<rparr>)"
proof -
  have h: "startswith ''Package: curl\<newline>'' ''Package: ''" by code_simp
  show ?thesis by (rule conjI [OF h final_package_line_adds_nothing [OF h]])
qed

text \<open>
  The package of a final \<open>Package: \<close> line is in the output when an earlier record has
  the same name.
\<close>

theorem final_package_line_counterexample:
  "startswith ''Package: x\<newline>'' ''Package: '' \<and>
   strip (drop 9 ''Package: x\<newline>'') = ''x'' \<and>
   get_manual_installed_packages_from_extended_states
     (Some \<lparr>lines = [''Package: x\<newline>'', ''\<newline>'', ''Package: x\<newline>''], failure = None\<rparr>)
     = (Inr {''x''}, [])"
  by code_simp

section \<open>Properties of the status reader\<close>

lemma st_fold_char:
  "st_auto_packages (fold st_line ls v) =
     st_auto_packages v
     \<union> (if truthy (st_package_name v) \<and> auto_marked (takeWhile (\<lambda>x. \<not> startswith x ''Package: '') ls)
        then {the (st_package_name v)} else {})
     \<union> {p. p \<noteq> [] \<and> (\<exists>body. (p, body) \<in> set (status_records ls) \<and> auto_marked body)}"
proof (induction ls arbitrary: v)
  case Nil
  then show ?case by (simp add: auto_marked_def)
next
  case (Cons l ls)
  show ?case
  proof (cases "startswith l ''Package: ''")
    case True
    then have step: "st_line l v = v\<lparr>st_package_name := Some (strip (drop 9 l))\<rparr>"
      by (simp add: st_line_def)
    show ?thesis
      unfolding fold_simps step Cons.IH
      using True by (auto simp: truthy_def auto_marked_def)
  next
    case False
    show ?thesis
    proof (cases "startswith l ''Status: '' \<and> contains ''auto'' l \<and> truthy (st_package_name v)")
      case True
      then have step: "st_line l v = v\<lparr>st_auto_packages := insert (the (st_package_name v)) (st_auto_packages v)\<rparr>"
        using False by (simp add: st_line_def)
      show ?thesis
        unfolding fold_simps step Cons.IH
        using True False by (auto simp: auto_marked_def)
    next
      case F2: False
      then have step: "st_line l v = v"
        using False by (auto simp: st_line_def)
      show ?thesis
        unfolding fold_simps step Cons.IH
        using F2 False by (auto simp: auto_marked_def)
    qed
  qed
qed

text \<open>
  C3. For a status file that is read to its end, a package name (a string that is not
  empty) is in the set the reader returns if and only if the file has a record of that
  name whose body has a \<open>Status: \<close> line that contains \<open>auto\<close>.
\<close>

theorem status_auto_iff_record_marked:
  assumes "p \<noteq> []" and "failure src = None"
  shows "\<exists>S. fst (get_auto_installed_packages (Some src)) = Inr S \<and>
     (p \<in> S \<longleftrightarrow> (\<exists>body. (p, body) \<in> set (status_records (lines src)) \<and> auto_marked body))"
  using assms
  by (simp add: get_auto_installed_packages_def st_fold_char st_init_def truthy_def)

theorem status_auto_iff_record_marked_witness:
  "''libssl1.1'' \<noteq> [] \<and>
   failure \<lparr>lines = [''Package: curl\<newline>'', ''Status: install ok installed\<newline>'', ''\<newline>'',
       ''Package: libssl1.1\<newline>'', ''Status: install ok auto\<newline>'', ''\<newline>''],
     failure = None\<rparr> = None \<and>
   (\<exists>S. fst (get_auto_installed_packages (Some \<lparr>lines = [''Package: curl\<newline>'',
       ''Status: install ok installed\<newline>'', ''\<newline>'',
       ''Package: libssl1.1\<newline>'', ''Status: install ok auto\<newline>'', ''\<newline>''],
     failure = None\<rparr>)) = Inr S \<and>
     (''libssl1.1'' \<in> S \<longleftrightarrow>
        (\<exists>body. (''libssl1.1'', body) \<in> set (status_records (lines \<lparr>lines = [''Package: curl\<newline>'',
       ''Status: install ok installed\<newline>'', ''\<newline>'',
       ''Package: libssl1.1\<newline>'', ''Status: install ok auto\<newline>'', ''\<newline>''],
     failure = None\<rparr>)) \<and> auto_marked body)))"
proof -
  have h1: "''libssl1.1'' \<noteq> []" by simp
  have h2: "failure \<lparr>lines = [''Package: curl\<newline>'', ''Status: install ok installed\<newline>'', ''\<newline>'',
       ''Package: libssl1.1\<newline>'', ''Status: install ok auto\<newline>'', ''\<newline>''],
     failure = None\<rparr> = None" by simp
  show ?thesis
    by (rule conjI [OF h1 conjI [OF h2 status_auto_iff_record_marked [OF h1 h2]]])
qed

section \<open>Properties of the history log scanner\<close>

lemma not_name_char_eq: "\<not> name_char CHR ''=''"
  by (simp add: name_char_def)

lemma package_name_of_token:
  assumes "n \<noteq> []" and "list_all name_char n"
  shows "package_name_pattern_match (n @ CHR ''='' # v) = Some n"
    and "package_name_pattern_match n = Some n"
proof -
  have t1: "takeWhile name_char (n @ CHR ''='' # v) = n"
    using assms(2) by (simp add: list_all_iff not_name_char_eq)
  have t2: "takeWhile name_char n = n"
    using assms(2) by (simp add: list_all_iff)
  show "package_name_pattern_match (n @ CHR ''='' # v) = Some n"
    using assms(1) unfolding package_name_pattern_match_def match_entry_def Let_def t1
    by (simp split: list.splits)
  show "package_name_pattern_match n = Some n"
    using assms(1) unfolding package_name_pattern_match_def match_entry_def Let_def t2
    by (simp split: list.splits)
qed

text \<open>
  C6. The loop over the tokens of a log entry adds, for a token made of a name (one or
  more characters of the name class, other than the single character \<open>.\<close>) followed by
  \<open>=\<close> and anything, the name alone, and for the bare name the name itself:
  \<open>foo=1.2.3-1\<close> gives \<open>foo\<close> and \<open>bar\<close> gives \<open>bar\<close>. The token \<open>.\<close> is dropped, and
  so is the token \<open>,\<close>.
\<close>

theorem log_entry_strips_version:
  assumes "n \<noteq> []" and "list_all name_char n" and "n \<noteq> ''.''"
  shows "log_entry (n @ CHR ''='' # v) S = insert n S \<and> log_entry n S = insert n S \<and>
     log_entry ''foo=1.2.3-1'' S = insert ''foo'' S \<and> log_entry ''bar'' S = insert ''bar'' S \<and>
     log_entry ''.'' S = S \<and> log_entry '','' S = S"
proof -
  have a: "log_entry (n @ CHR ''='' # v) S = insert n S" "log_entry n S = insert n S"
    using assms by (simp_all add: log_entry_def package_name_of_token)
  have foo: "package_name_pattern_match ''foo=1.2.3-1'' = Some ''foo''" by code_simp
  have bar: "package_name_pattern_match ''bar'' = Some ''bar''" by code_simp
  have dot: "package_name_pattern_match ''.'' = Some ''.''" by code_simp
  have comma: "package_name_pattern_match '','' = None" by code_simp
  show ?thesis using a by (simp add: log_entry_def foo bar dot comma)
qed

theorem log_entry_strips_version_witness:
  "''vim-common'' \<noteq> [] \<and> list_all name_char ''vim-common'' \<and> ''vim-common'' \<noteq> ''.'' \<and>
   log_entry ''vim-common=2:8.2'' {''vim''} = {''vim-common'', ''vim''} \<and>
   log_entry ''vim-common'' {} = {''vim-common''}"
proof -
  have h1: "''vim-common'' \<noteq> []" by simp
  have h2: "list_all name_char ''vim-common''" by code_simp
  have h3: "''vim-common'' \<noteq> ''.''" by simp
  from log_entry_strips_version [OF h1 h2 h3, of "''2:8.2''" "{''vim''}"]
    log_entry_strips_version [OF h1 h2 h3, of "''2:8.2''" "{}"] h1 h2 h3
  show ?thesis by simp
qed

text \<open>
  A whole line: the entry is found after \<open>install\<close>, cut at \<open>, \<close>, and each token gives
  its name.
\<close>

lemma log_line_example:
  "log_line ''Commandline: apt install vim, vim-common=2:8.2 foo\<newline>'' {}
     = {''vim'', ''vim-common''}"
  by code_simp

section \<open>Properties of the report\<close>

lemma string_less_lexord:
  "(s :: string) < t \<longleftrightarrow> (s, t) \<in> lexord {(a, b). (of_char a :: nat) < of_char b}"
proof -
  have "{(u :: char, v). u < v} = {(a, b). (of_char a :: nat) < of_char b}"
    by (auto simp: less_char_def)
  then show ?thesis by (simp add: list_less_def)
qed

text \<open>
  C7. When the pipeline has returned its set, \<open>main\<close> returns too and the process exits
  with status 0. What it prints after the pipeline is, for the empty set, the one line
  \<open>No manually installed packages found.\<close>, and otherwise the elements of the set, each
  once, one per line, in strictly ascending lexicographic order of their code points.
\<close>

theorem reporter_prints_sorted:
  assumes "get_manual_installed_packages e w = (Inr m, w1)"
  shows "\<exists>out. main e w = (Inr (), w1\<lparr>stdout := stdout w1 @ out\<rparr>) \<and>
     (if heap w1 ! m = {} then out = [''No manually installed packages found.'']
      else set out = heap w1 ! m \<and>
           sorted_wrt (\<lambda>s t. (s, t) \<in> lexord {(a, b). (of_char a :: nat) < of_char b}) out) \<and>
     exit_status (fst (main e w)) = 0"
proof -
  let ?S = "heap w1 ! m"
  let ?out = "if ?S = {} then [''No manually installed packages found.''] else sorted_list_of_set ?S"
  have fin: "finite ?S" using assms by (rule result_finite)
  have m: "main e w = (Inr (), w1\<lparr>stdout := stdout w1 @ ?out\<rparr>)"
    using assms by (rule main_returns)
  have "sorted_wrt (<) (sorted_list_of_set ?S)" by (rule strict_sorted_list_of_set)
  then have s: "sorted_wrt (\<lambda>s t. (s, t) \<in> lexord {(a, b). (of_char a :: nat) < of_char b})
      (sorted_list_of_set ?S)"
    by (simp add: string_less_lexord [abs_def])
  have e: "exit_status (fst (main e w)) = 0" by (simp add: m exit_status_def)
  show ?thesis
    apply (rule exI [of _ ?out])
    using m s e fin by simp
qed

theorem reporter_prints_sorted_witness:
  "get_manual_installed_packages env_history initial_world
     = (Inr 0, \<lparr>heap = [{''vim-common'', ''vim''}, {}, {''vim-common'', ''vim''}, {}],
          stdout = [], stderr = []\<rparr>) \<and>
   main env_history initial_world
     = (Inr (), \<lparr>heap = [{''vim-common'', ''vim''}, {}, {''vim-common'', ''vim''}, {}],
          stdout = [''vim'', ''vim-common''], stderr = []\<rparr>) \<and>
   exit_status (fst (main env_history initial_world)) = 0"
proof -
  have h: "get_manual_installed_packages env_history initial_world
     = (Inr 0, \<lparr>heap = [{''vim-common'', ''vim''}, {}, {''vim-common'', ''vim''}, {}],
          stdout = [], stderr = []\<rparr>)"
    by code_simp
  have m: "main env_history initial_world
     = (Inr (), \<lparr>heap = [{''vim-common'', ''vim''}, {}, {''vim-common'', ''vim''}, {}],
          stdout = [''vim'', ''vim-common''], stderr = []\<rparr>)"
    by code_simp
  from reporter_prints_sorted [OF h] h m show ?thesis by simp
qed

section \<open>Failures while reading\<close>

lemma log_files_os_errors:
  "list_all (\<lambda>f. os_errors_only (snd f)) fs \<Longrightarrow>
   log_files fs S = Inr (fold (\<lambda>f. fold log_line (lines (snd f))) fs S)"
proof (induction fs arbitrary: S)
  case Nil
  then show ?case by simp
next
  case (Cons f fs)
  obtain n src where f: "f = (n, src)" by (cases f)
  have tl: "list_all (\<lambda>f. os_errors_only (snd f)) fs" and hd: "os_errors_only src"
    using Cons.prems unfolding f by simp_all
  show ?case unfolding f using hd Cons.IH [OF tl]
    by (cases "failure src") (simp_all add: os_errors_only_def Let_def)
qed

lemma extended_states_os_errors:
  assumes "case f of None \<Rightarrow> True | Some src \<Rightarrow> os_errors_only src"
  shows "\<exists>A. fst (get_manual_installed_packages_from_extended_states f) = Inr A \<and>
     (\<forall>src. f = Some src \<and> failure src \<noteq> None \<longrightarrow> A = {}) \<and>
     snd (get_manual_installed_packages_from_extended_states f)
       = diagnostic ''/var/lib/dpkg/extended_states'' f"
  using assms
  by (auto simp: get_manual_installed_packages_from_extended_states_def os_errors_only_def
      diagnostic_def split: option.splits)

lemma status_os_errors:
  assumes "case f of None \<Rightarrow> True | Some src \<Rightarrow> os_errors_only src"
  shows "\<exists>C. fst (get_auto_installed_packages f) = Inr C \<and>
     (\<forall>src. f = Some src \<and> failure src \<noteq> None \<longrightarrow> C = {}) \<and>
     snd (get_auto_installed_packages f) = diagnostic ''/var/lib/dpkg/status'' f"
  using assms
  by (auto simp: get_auto_installed_packages_def os_errors_only_def
      diagnostic_def split: option.splits)

text \<open>
  C5. When every failure of opening or reading a file is an \<open>OSError\<close> (a bad gzip header
  included), no exception leaves a reader: the extended-states reader and the status reader
  return the empty set when their file fails; the log scanner returns the names of all the
  lines it read, in every file, before that file failed; \<open>main\<close> returns and the process
  exits with status 0.
\<close>

theorem read_errors_contained:
  assumes "env_os_errors_only e"
  shows "(\<forall>src. extended_states e = Some src \<and> failure src \<noteq> None \<longrightarrow>
        fst (get_manual_installed_packages_from_extended_states (extended_states e)) = Inr {}) \<and>
     (\<forall>src. status e = Some src \<and> failure src \<noteq> None \<longrightarrow>
        fst (get_auto_installed_packages (status e)) = Inr {}) \<and>
     fst (get_manual_installed_packages_from_logs (history_logs e))
       = Inr (fold (\<lambda>f. fold log_line (lines (snd f))) (history_logs e) {}) \<and>
     fst (main e w) = Inr () \<and> exit_status (fst (main e w)) = 0"
proof -
  obtain A where A: "fst (get_manual_installed_packages_from_extended_states (extended_states e)) = Inr A"
    and A0: "\<forall>src. extended_states e = Some src \<and> failure src \<noteq> None \<longrightarrow> A = {}"
    using extended_states_os_errors [of "extended_states e"] assms
    by (auto simp: env_os_errors_only_def)
  obtain C where C: "fst (get_auto_installed_packages (status e)) = Inr C"
    and C0: "\<forall>src. status e = Some src \<and> failure src \<noteq> None \<longrightarrow> C = {}"
    using status_os_errors [of "status e"] assms
    by (auto simp: env_os_errors_only_def)
  have B: "fst (get_manual_installed_packages_from_logs (history_logs e))
       = Inr (fold (\<lambda>f. fold log_line (lines (snd f))) (history_logs e) {})"
    using assms
    by (simp add: get_manual_installed_packages_from_logs_def env_os_errors_only_def
        log_files_os_errors)
  have m: "fst (main e w) = Inr ()"
    using main_returns [OF pipeline_returns [OF A B C, of w]] by simp
  have a: "\<forall>src. extended_states e = Some src \<and> failure src \<noteq> None \<longrightarrow>
        fst (get_manual_installed_packages_from_extended_states (extended_states e)) = Inr {}"
    using A A0 by blast
  have c: "\<forall>src. status e = Some src \<and> failure src \<noteq> None \<longrightarrow>
        fst (get_auto_installed_packages (status e)) = Inr {}"
    using C C0 by blast
  have x: "exit_status (fst (main e w)) = 0" by (simp add: m exit_status_def)
  show ?thesis using a c B m x by blast
qed

theorem read_errors_witness:
  "env_os_errors_only env_unreadable \<and>
   fst (get_manual_installed_packages_from_extended_states (extended_states env_unreadable)) = Inr {} \<and>
   fst (get_manual_installed_packages_from_logs (history_logs env_unreadable)) = Inr {''vim''} \<and>
   fst (main env_unreadable initial_world) = Inr () \<and>
   exit_status (fst (main env_unreadable initial_world)) = 0"
proof -
  have h: "env_os_errors_only env_unreadable" by code_simp
  have f: "extended_states env_unreadable
      = Some \<lparr>lines = [], failure = Some (OSError ''[Errno 5] Input/output error'')\<rparr>"
    by (simp add: env_unreadable_def)
  have l: "fold (\<lambda>f. fold log_line (lines (snd f))) (history_logs env_unreadable) {} = {''vim''}"
    by code_simp
  show ?thesis using h f l read_errors_contained [OF h, of initial_world]
    by (simp add: exit_status_def)
qed

text \<open>
  In the run below the history log fails with an \<open>OSError\<close> after its first line, and the
  scanner returns the name of that line, not the empty set; the extended-states file
  cannot be decoded, the \<open>UnicodeDecodeError\<close> leaves the reader and the pipeline, and the
  process exits with status 1.
\<close>

theorem read_errors_counterexample:
  "fst (get_manual_installed_packages_from_logs (history_logs env_undecodable)) = Inr {''vim''} \<and>
   fst (main env_undecodable initial_world) = Inl (UnicodeDecodeError ''invalid start byte'') \<and>
   exit_status (fst (main env_undecodable initial_world)) = 1"
  by code_simp

text \<open>
  C8. When \<open>main\<close> returns, standard output holds what it held, then the line printed
  for a failed extended-states file, then the line printed for a failed status file, then
  the report; nothing is written to standard error, and the exit status is 0.
\<close>

theorem diagnostics_go_to_stdout:
  assumes "fst (main e w) = Inr ()"
  shows "\<exists>m w1. get_manual_installed_packages e w = (Inr m, w1) \<and>
     stdout (snd (main e w)) =
       stdout w @ diagnostic ''/var/lib/dpkg/extended_states'' (extended_states e)
         @ diagnostic ''/var/lib/dpkg/status'' (status e)
         @ (if heap w1 ! m = {} then [''No manually installed packages found.'']
            else sorted_list_of_set (heap w1 ! m)) \<and>
     stderr (snd (main e w)) = stderr w \<and>
     exit_status (fst (main e w)) = 0"
proof -
  obtain m w1 where p: "get_manual_installed_packages e w = (Inr m, w1)"
    using main_Inr_pipeline [OF assms] by blast
  obtain A B C where
    A: "fst (get_manual_installed_packages_from_extended_states (extended_states e)) = Inr A"
    and B: "fst (get_manual_installed_packages_from_logs (history_logs e)) = Inr B"
    and C: "fst (get_auto_installed_packages (status e)) = Inr C"
    using pipeline_Inr_readers [OF p] by blast
  have w1: "w1 = w\<lparr>heap := heap w @ [(A \<union> B) - C, A, B, C],
        stdout := stdout w
          @ snd (get_manual_installed_packages_from_extended_states (extended_states e))
          @ snd (get_manual_installed_packages_from_logs (history_logs e))
          @ snd (get_auto_installed_packages (status e))\<rparr>"
    using p pipeline_returns [OF A B C, of w] by simp
  have out: "stdout w1 = stdout w @ diagnostic ''/var/lib/dpkg/extended_states'' (extended_states e)
         @ diagnostic ''/var/lib/dpkg/status'' (status e)"
    unfolding w1 extended_states_diag [OF A] status_diag [OF C]
    by (simp add: get_manual_installed_packages_from_logs_def)
  have err: "stderr w1 = stderr w" unfolding w1 by simp
  have m: "main e w = (Inr (), w1\<lparr>stdout := stdout w1 @
     (if heap w1 ! m = {} then [''No manually installed packages found.'']
      else sorted_list_of_set (heap w1 ! m))\<rparr>)"
    using p by (rule main_returns)
  have "stdout (snd (main e w)) = stdout w1 @
     (if heap w1 ! m = {} then [''No manually installed packages found.'']
      else sorted_list_of_set (heap w1 ! m))"
    unfolding m by simp
  moreover have "stderr (snd (main e w)) = stderr w" unfolding m using err by simp
  moreover have "exit_status (fst (main e w)) = 0" unfolding m by (simp add: exit_status_def)
  ultimately show ?thesis using p out by simp
qed

theorem diagnostics_witness:
  "fst (main env_unreadable initial_world) = Inr () \<and>
   (\<exists>m w1. get_manual_installed_packages env_unreadable initial_world = (Inr m, w1) \<and>
     stdout (snd (main env_unreadable initial_world)) =
       stdout initial_world
         @ diagnostic ''/var/lib/dpkg/extended_states'' (extended_states env_unreadable)
         @ diagnostic ''/var/lib/dpkg/status'' (status env_unreadable)
         @ (if heap w1 ! m = {} then [''No manually installed packages found.'']
            else sorted_list_of_set (heap w1 ! m)) \<and>
     stderr (snd (main env_unreadable initial_world)) = stderr initial_world \<and>
     exit_status (fst (main env_unreadable initial_world)) = 0)"
proof -
  have h: "fst (main env_unreadable initial_world) = Inr ()" by (simp add: main_unreadable)
  show ?thesis by (rule conjI [OF h diagnostics_go_to_stdout [OF h]])
qed

text \<open>
  The line printed for the unreadable extended-states file is the first line of standard
  output, ahead of the package list, and standard error is empty.
\<close>

theorem diagnostics_counterexample:
  "stdout (snd (main env_unreadable initial_world)) =
     [''Error reading /var/lib/dpkg/extended_states: [Errno 5] Input/output error'', ''vim''] \<and>
   stderr (snd (main env_unreadable initial_world)) = []"
  by (simp add: main_unreadable)

end
